theory Spec2Isabelle
  imports Main
begin

unbundle bit_operations_syntax

section \<open>LinkbotJS: the firmware update checker (src/jsx/firmware.jsx)\<close>

text \<open>
  The module scans the firmware files the host bridge lists, pairs \<open>.hex\<close> and
  \<open>.eeprom\<close> files by stem, reads the stems as versions, chooses the version to flash,
  and keeps a timer-driven loop that asks the server for the latest firmware.

  JavaScript strings are modelled as \<open>string\<close>; only positions and equality of
  characters are used by the code, so the alphabet does not matter. Exceptions are values
  of type \<open>error\<close>, returned as \<open>Inl\<close>.
\<close>

datatype error = TypeError | SyntaxError

subsection \<open>String primitives of the language\<close>

text \<open>\<open>a.lastIndexOf(c)\<close> for a one-character \<open>c\<close>: the largest position holding \<open>c\<close>, or -1.\<close>

fun lastIndexOf :: "string \<Rightarrow> char \<Rightarrow> int" where
  "lastIndexOf [] c = - 1"
| "lastIndexOf (x # xs) c =
     (let r = lastIndexOf xs c
      in if 0 \<le> r then r + 1 else if x = c then 0 else - 1)"

text \<open>
  \<open>String.prototype.slice\<close>: a negative position counts from the end, and every position
  is cut to the range from 0 to the length.
\<close>

definition relativeIndex :: "int \<Rightarrow> nat \<Rightarrow> nat" where
  "relativeIndex i len = (if i < 0 then nat (max (int len + i) 0) else min (nat i) len)"

definition slice :: "string \<Rightarrow> int \<Rightarrow> int \<Rightarrow> string" where
  "slice a i j =
     (let from = relativeIndex i (length a); to = relativeIndex j (length a)
      in take (to - from) (drop from a))"

definition sliceFrom :: "string \<Rightarrow> int \<Rightarrow> string" where
  "sliceFrom a i = drop (relativeIndex i (length a)) a"

subsection \<open>splitFilename\<close>

text \<open>The object \<open>{ stem: ..., extension: ... }\<close>; \<open>null\<close> is \<open>None\<close>.\<close>

record fileparts =
  stem :: string
  extension :: "string option"

definition splitFilename :: "string \<Rightarrow> fileparts" where
  "splitFilename a =
     (let i = lastIndexOf a (CHR ''.'')
      in if i > 0
         then \<lparr>stem = slice a 0 i, extension = Some (sliceFrom a i)\<rparr>
         else \<lparr>stem = sliceFrom a 0, extension = None\<rparr>)"

subsection \<open>Version (src/jsx/version.jsx)\<close>

text \<open>
  Modelled from the spec: the module \<open>version.jsx\<close>, which \<open>firmware.jsx\<close> requires
  and which is missing from the sources. By the specification's data model a version is a
  triple of non-negative integers, totally ordered by major, then minor, then patch, with
  equality, the maximum of two, and parsing from a string.
\<close>

record version =
  major :: nat
  minor :: nat
  patch :: nat

definition isDigit :: "char \<Rightarrow> bool" where
  "isDigit c = (c \<in> set ''0123456789'')"

definition digitValue :: "char \<Rightarrow> nat" where
  "digitValue c = of_char c - 48"

text \<open>A non-empty string of decimal digits read as a number; anything else is no number.\<close>

definition parseNat :: "string \<Rightarrow> nat option" where
  "parseNat s =
     (if s \<noteq> [] \<and> list_all isDigit s
      then Some (foldl (\<lambda>n c. 10 * n + digitValue c) 0 s) else None)"

text \<open>The pieces of a string between its dots, as \<open>s.split('.')\<close> gives them.\<close>

fun splitDots :: "string \<Rightarrow> string list" where
  "splitDots [] = [[]]"
| "splitDots (c # cs) =
     (if c = CHR ''.'' then [] # splitDots cs
      else (case splitDots cs of [] \<Rightarrow> [[c]] | p # ps \<Rightarrow> (c # p) # ps))"

text \<open>
  Modelled from the spec: the constructor \<open>new Version(parts)\<close> of the missing
  \<open>version.jsx\<close>, applied to the dot-separated pieces of a version string. The
  specification asks for exactly three non-negative integers; pieces that are not such a
  triple give \<open>None\<close>, a value that is no version and equals none.
\<close>

definition Version_new :: "string list \<Rightarrow> version option" where
  "Version_new parts =
     (case parts of
        [a, b, c] \<Rightarrow>
          (case (parseNat a, parseNat b, parseNat c) of
             (Some x, Some y, Some z) \<Rightarrow> Some \<lparr>major = x, minor = y, patch = z\<rparr>
           | _ \<Rightarrow> None)
      | _ \<Rightarrow> None)"

text \<open>
  Modelled from the spec: \<open>Version.fromString\<close> of the missing \<open>version.jsx\<close>. The
  enumeration of local versions hands it the remainder of a stem, and the specification
  says of that step: "Parse the remainder as \<open>major.minor.patch\<close> (exactly three
  dot-separated non-negative integers); malformed strings are dropped silently"; of the
  type it says that a parse failure yields no version rather than an error. The string
  form with a leading \<open>v\<close> that the data model also names is the form of a file stem,
  whose \<open>v\<close> is removed by \<open>dropV\<close> before the parse; the persisted remote string has
  none. The argument is \<open>None\<close> for \<open>null\<close> and \<open>undefined\<close>, which are no version
  strings.
\<close>

definition Version_fromString :: "string option \<Rightarrow> version option" where
  "Version_fromString arg =
     (case arg of
        None \<Rightarrow> None
      | Some s \<Rightarrow> Version_new (splitDots s))"

text \<open>
  Modelled from the spec: \<open>x.eq(v)\<close> of the missing \<open>version.jsx\<close>, equality of versions.
  The argument may be the absent result of a failed parse; the specification lets the
  remote version count only when it "is present", so nothing equals an absent version.
\<close>

definition Version_eq :: "version \<Rightarrow> version option \<Rightarrow> bool" where
  "Version_eq x v =
     (case v of
        None \<Rightarrow> False
      | Some y \<Rightarrow> major x = major y \<and> minor x = minor y \<and> patch x = patch y)"

definition version_less :: "version \<Rightarrow> version \<Rightarrow> bool" where
  "version_less a b =
     (major a < major b
      \<or> (major a = major b \<and> (minor a < minor b \<or> (minor a = minor b \<and> patch a < patch b))))"

definition version_le :: "version \<Rightarrow> version \<Rightarrow> bool" where
  "version_le a b = (version_less a b \<or> a = b)"

text \<open>
  Modelled from the spec: \<open>Version.max\<close> of the missing \<open>version.jsx\<close>, the larger of two
  versions in the order by major, then minor, then patch.
\<close>

definition Version_max :: "version \<Rightarrow> version \<Rightarrow> version" where
  "Version_max a b = (if version_less a b then b else a)"

text \<open>
  Modelled from the spec: the string form of a version in \<open>'v' + version + '.hex'\<close>
  (\<open>toString\<close> of the missing \<open>version.jsx\<close>): the three numbers in decimal, joined by dots.
\<close>

fun showNat :: "nat \<Rightarrow> string" where
  "showNat n =
     (if n < 10 then [char_of (48 + n)] else showNat (n div 10) @ [char_of (48 + n mod 10)])"

definition Version_toString :: "version \<Rightarrow> string" where
  "Version_toString v = showNat (major v) @ ''.'' @ showNat (minor v) @ ''.'' @ showNat (patch v)"

subsection \<open>The configuration store (src/jsx/config.jsx)\<close>

text \<open>
  Modelled from the spec: the module \<open>config.jsx\<close>, missing from the sources as well. The
  specification gives its surface as \<open>get(key) -> value|undefined\<close> and \<open>set(key, value) -> boolean
  (success)\<close>. The store holds the two keys the module uses; \<open>accepts\<close> says for each
  key whether the store takes a write, and a refused write leaves the store as it was.
\<close>

datatype config_key = KeyLatestRemoteFirmwareVersion | KeyNextCheck

record config =
  latestRemoteFirmwareVersion :: "string option"
  nextCheck :: "int option"
  accepts :: "config_key \<Rightarrow> bool"

subsection \<open>firmwareFileStems\<close>

text \<open>
  The object \<open>fws\<close> maps stems to bitsets. The model keeps its own properties in the
  order of their creation. \<open>fws\<close> is created by \<open>{}\<close>, so it inherits the properties of
  \<open>Object.prototype\<close>, and three things follow that the model writes out:
  \<^item> reading \<open>fws[k]\<close> for a name that is not an own property gives \<open>undefined\<close> or an
    inherited function or object, and \<open>|=\<close> converts each of them to 0;
  \<^item> assigning to \<open>fws['__proto__']\<close> a number is ignored by the inherited setter and
    creates no property;
  \<^item> once a stem \<open>hasOwnProperty\<close> has been stored, \<open>fws.hasOwnProperty\<close> is a number,
    and the call of it in the second loop raises a TypeError.
\<close>

type_synonym bitsets = "(string \<times> nat) list"

definition objectPrototypeNames :: "string list" where
  "objectPrototypeNames =
     [''constructor'', ''hasOwnProperty'', ''isPrototypeOf'', ''propertyIsEnumerable'',
      ''toLocaleString'', ''toString'', ''valueOf'', ''__proto__'', ''__defineGetter__'',
      ''__defineSetter__'', ''__lookupGetter__'', ''__lookupSetter__'']"

text \<open>The operator \<open>k in fws\<close>: own and inherited properties.\<close>

definition hasProperty :: "string \<Rightarrow> bitsets \<Rightarrow> bool" where
  "hasProperty k fws = (map_of fws k \<noteq> None \<or> k \<in> set objectPrototypeNames)"

text \<open>The value of \<open>fws[k]\<close> as the operand of \<open>|=\<close>.\<close>

definition getInt32 :: "bitsets \<Rightarrow> string \<Rightarrow> nat" where
  "getInt32 fws k = (case map_of fws k of Some v \<Rightarrow> v | None \<Rightarrow> 0)"

fun setOwn :: "bitsets \<Rightarrow> string \<Rightarrow> nat \<Rightarrow> bitsets" where
  "setOwn [] k v = [(k, v)]"
| "setOwn ((k', v') # rest) k v = (if k' = k then (k, v) # rest else (k', v') # setOwn rest k v)"

text \<open>The assignment \<open>fws[k] = v\<close>.\<close>

definition putProperty :: "bitsets \<Rightarrow> string \<Rightarrow> nat \<Rightarrow> bitsets" where
  "putProperty fws k v = (if k = ''__proto__'' then fws else setOwn fws k v)"

text \<open>\<open>String(b)\<close> for a boolean, the property name that \<open>b in fws\<close> looks up.\<close>

definition booleanToString :: "bool \<Rightarrow> string" where
  "booleanToString b = (if b then ''true'' else ''false'')"

text \<open>
  The body of the \<open>forEach\<close> callback. The test is \<open>!file.stem in fws\<close>, where \<open>!\<close>
  binds tighter than \<open>in\<close>: \<open>!file.stem\<close> is \<open>true\<close> for the empty stem and \<open>false\<close> for
  every other, and that boolean is the name looked up in \<open>fws\<close>.
\<close>

definition rollCall :: "bitsets \<Rightarrow> fileparts \<Rightarrow> bitsets" where
  "rollCall fws file =
     (let fws1 = (if hasProperty (booleanToString (stem file = [])) fws
                  then putProperty fws (stem file) 0 else fws);
          fws2 = putProperty fws1 (stem file)
                   (getInt32 fws1 (stem file) OR of_bool (extension file = Some ''.hex''));
          fws3 = putProperty fws2 (stem file)
                   (getInt32 fws2 (stem file)
                      OR push_bit 1 (of_bool (extension file = Some ''.eeprom'')))
      in fws3)"

text \<open>
  The order of \<open>for (var stem in fws)\<close>: the names that are array indices (canonical
  decimal numbers below \<open>2^32 - 1\<close>) in ascending order, then the other names in the
  order of their creation.
\<close>

definition isArrayIndex :: "string \<Rightarrow> bool" where
  "isArrayIndex k =
     (case parseNat k of
        None \<Rightarrow> False
      | Some n \<Rightarrow> (k = ''0'' \<or> hd k \<noteq> CHR ''0'') \<and> int n < 4294967295)"

definition forInKeys :: "bitsets \<Rightarrow> string list" where
  "forInKeys fws =
     (let ks = map fst fws
      in sort_key (\<lambda>k. the (parseNat k)) (filter isArrayIndex ks)
         @ filter (\<lambda>k. \<not> isArrayIndex k) ks)"

definition firmwareFileStems :: "string list \<Rightarrow> error + string list" where
  "firmwareFileStems firmwareFiles =
     (let fws = foldl rollCall [] (map splitFilename firmwareFiles)
      in if map_of fws ''hasOwnProperty'' \<noteq> None then Inl TypeError
         else Inr (filter (\<lambda>stem. getInt32 fws stem = 3) (forInKeys fws)))"

subsection \<open>localVersionList, localVersionExists, latestVersion, startUpdater\<close>

text \<open>\<open>/^v/.test(s) ? s.slice(1) : null\<close>; the pattern has no \<open>i\<close> flag.\<close>

definition dropV :: "string \<Rightarrow> string option" where
  "dropV s =
     (if (case s of [] \<Rightarrow> False | c # _ \<Rightarrow> c = CHR ''v'') then Some (sliceFrom s 1) else None)"

text \<open>
  The bridge's \<open>listFirmwareFiles()\<close> is the argument \<open>files\<close>. \<open>filter(Boolean)\<close> keeps the
  versions and drops the absent results.
\<close>

definition localVersionList :: "string list \<Rightarrow> error + version list" where
  "localVersionList files =
     (case firmwareFileStems files of
        Inl e \<Rightarrow> Inl e
      | Inr stems \<Rightarrow>
          Inr (map the (filter (\<lambda>r. r \<noteq> None) (map Version_fromString (map dropV stems)))))"

definition localVersionExists :: "string list \<Rightarrow> version option \<Rightarrow> error + bool" where
  "localVersionExists files v =
     (case localVersionList files of
        Inl e \<Rightarrow> Inl e
      | Inr vs \<Rightarrow> Inr (list_ex (\<lambda>x. Version_eq x v) vs))"

text \<open>
  \<open>Array.prototype.reduce\<close> without an initial value: the first element starts the
  fold, and an empty array raises a TypeError.
\<close>

definition reduce :: "('a \<Rightarrow> 'a \<Rightarrow> 'a) \<Rightarrow> 'a list \<Rightarrow> error + 'a" where
  "reduce f xs = (case xs of [] \<Rightarrow> Inl TypeError | x # rest \<Rightarrow> Inr (foldl f x rest))"

text \<open>
  The result is \<open>Inl\<close> when an exception leaves the function and \<open>Inr\<close> of what it
  returns: a version, or \<open>None\<close> for no version. The file listing is read twice by the
  code (in \<open>localVersionList\<close> and in \<open>localVersionExists\<close>); the model gives both reads
  the same listing.
\<close>

definition latestVersion :: "config \<Rightarrow> string list \<Rightarrow> error + version option" where
  "latestVersion cfg files =
     (case localVersionList files of
        Inl e \<Rightarrow> Inl e
      | Inr vs \<Rightarrow>
          (case reduce Version_max vs of
             Inl e \<Rightarrow> Inl e
           | Inr lv \<Rightarrow>
               (let lrfv = Version_fromString (latestRemoteFirmwareVersion cfg)
                in case localVersionExists files lrfv of
                     Inl e \<Rightarrow> Inl e
                   | Inr found \<Rightarrow> Inr (if found then lrfv else Some lv))))"

text \<open>
  \<open>startUpdater\<close> returns the arguments it passes to the bridge's \<open>firmwareUpdate\<close>. String
  concatenation with no version (\<open>null\<close> or \<open>undefined\<close>) is not modelled beyond its
  name.
\<close>

definition versionText :: "version option \<Rightarrow> string" where
  "versionText v = (case v of None \<Rightarrow> ''undefined'' | Some x \<Rightarrow> Version_toString x)"

definition startUpdater :: "config \<Rightarrow> string list \<Rightarrow> error + (version option \<times> string \<times> string)" where
  "startUpdater cfg files =
     (case latestVersion cfg files of
        Inl e \<Rightarrow> Inl e
      | Inr version \<Rightarrow>
          (let hexFile = ''v'' @ versionText version @ ''.hex'';
               eepromFile = ''v'' @ versionText version @ ''.eeprom''
           in Inr (version, hexFile, eepromFile)))"

subsection \<open>The update-check loop\<close>

text \<open>
  What the module does to its surroundings is recorded, in order, as a list of effects:
  console output, writes to the configuration store, the timer, the request and the
  downloads asked of the bridge. A console message is named by the statement that prints
  it and carries the values that statement appends. Numbers are integers: the timestamps
  and delays of the module are whole milliseconds, far below \<open>2^53\<close>.
\<close>

datatype message =
    SchedulingCheck int
  | UnableToSetNextCheck
  | UnableToSetLatestRemoteFirmwareVersion
  | ErrorDownloading
  | FirmwareIs "string option"
  | HexMD5 "string option"
  | EepromMD5 "string option"

datatype effect =
    ConsoleLog message
  | ConsoleWarn message
  | ConfigSetNextCheck int
  | ConfigSetLatestRemoteFirmwareVersion "string option"
  | SetTimeout int
  | XhrGet string
  | SaveFirmwareFile string "string option"

record world =
  store :: config
  effects :: "effect list"

definition emit :: "effect \<Rightarrow> world \<Rightarrow> world" where
  "emit e w = w\<lparr>effects := effects w @ [e]\<rparr>"

text \<open>\<open>config.set('nextCheck', t)\<close> and its boolean result.\<close>

definition config_set_nextCheck :: "int \<Rightarrow> world \<Rightarrow> bool \<times> world" where
  "config_set_nextCheck t w =
     (let ok = accepts (store w) KeyNextCheck;
          w1 = emit (ConfigSetNextCheck t) w
      in (ok, if ok then w1\<lparr>store := (store w1)\<lparr>nextCheck := Some t\<rparr>\<rparr> else w1))"

text \<open>\<open>config.set('latestRemoteFirmwareVersion', s)\<close>; \<open>None\<close> is \<open>undefined\<close>.\<close>

definition config_set_latestRemoteFirmwareVersion :: "string option \<Rightarrow> world \<Rightarrow> bool \<times> world" where
  "config_set_latestRemoteFirmwareVersion s w =
     (let ok = accepts (store w) KeyLatestRemoteFirmwareVersion;
          w1 = emit (ConfigSetLatestRemoteFirmwareVersion s) w
      in (ok, if ok then w1\<lparr>store := (store w1)\<lparr>latestRemoteFirmwareVersion := s\<rparr>\<rparr> else w1))"

definition CHECK_INTERVAL :: int where
  "CHECK_INTERVAL = 60000"

text \<open>\<open>now\<close> is what \<open>Date.now()\<close> returns in this call.\<close>

definition scheduleFirmwareUpdateCheck :: "int \<Rightarrow> int \<Rightarrow> world \<Rightarrow> world" where
  "scheduleFirmwareUpdateCheck now delay w =
     (let w1 = emit (ConsoleLog (SchedulingCheck delay)) w;
          (ok, w2) = config_set_nextCheck (now + delay) w1;
          w3 = (if \<not> ok then emit (ConsoleWarn UnableToSetNextCheck) w2 else w2)
      in emit (SetTimeout delay) w3)"

text \<open>
  The parsed response body, with the shape the server's document has: a table from the
  version of the running application to the firmware versions for it, and a table from a
  firmware version to its two checksums. A table is \<open>None\<close> when the document lacks
  the key (or is no object at all), and a checksum is \<open>None\<close> when its entry lacks it.
\<close>

record md5sums =
  md5_hex :: "string option"
  md5_eeprom :: "string option"

record metadata =
  linkbotlabs_firmware :: "(string \<times> string list) list option"
  firmware_md5sums :: "(string \<times> md5sums) list option"

text \<open>
  What a run of the response handler reads from outside the module: the bridge's
  \<open>linkbotLabsVersion()\<close> and \<open>listFirmwareFiles()\<close>, \<open>location.host\<close> and the clock.
\<close>

record environment =
  linkbotLabsVersion :: "version option"
  listFirmwareFiles :: "string list"
  locationHost :: string
  dateNow :: int

text \<open>\<open>version.major + '.' + version.minor + '.' + version.patch\<close>.\<close>

definition runningVersionKey :: "version \<Rightarrow> string" where
  "runningVersionKey v = showNat (major v) @ ''.'' @ showNat (minor v) @ ''.'' @ showNat (patch v)"

text \<open>A value used as a property name or appended to a string: \<open>undefined\<close> reads as its name.\<close>

definition propertyName :: "string option \<Rightarrow> string" where
  "propertyName s = (case s of None \<Rightarrow> ''undefined'' | Some x \<Rightarrow> x)"

text \<open>
  \<open>json['firmware-md5sums'][name]\<close>: the entry of the table under this name. The table
  is an object, so a name it does not hold itself but inherits from \<open>Object.prototype\<close>
  reads as the inherited function or object, whose \<open>hex\<close> and \<open>eeprom\<close> are
  \<open>undefined\<close>; any other missing name reads as \<open>undefined\<close>, here \<open>None\<close>.
\<close>

definition lookupChecksums :: "(string \<times> md5sums) list \<Rightarrow> string \<Rightarrow> md5sums option" where
  "lookupChecksums sums name =
     (case map_of sums name of
        Some md5 \<Rightarrow> Some md5
      | None \<Rightarrow>
          if name \<in> set objectPrototypeNames
          then Some \<lparr>md5_hex = None, md5_eeprom = None\<rparr> else None)"

text \<open>
  The handler of the request's \<open>load\<close> event. \<open>body\<close> is the outcome of
  \<open>JSON.parse(this.responseText)\<close>, \<open>None\<close> when it raises a SyntaxError. The result
  pairs the exception that leaves the handler, if any, with the world it leaves behind.
  Reading a property of \<open>undefined\<close> raises a TypeError. The key of the running version
  is three numbers joined by dots, never a name that an object inherits.
\<close>

definition responseHandler :: "environment \<Rightarrow> metadata option \<Rightarrow> world \<Rightarrow> error option \<times> world" where
  "responseHandler env body w =
     (case body of
        None \<Rightarrow> (Some SyntaxError, w)
      | Some json \<Rightarrow>
     (case linkbotLabsVersion env of
        None \<Rightarrow> (None, w)
      | Some version \<Rightarrow>
     (case linkbotlabs_firmware json of
        None \<Rightarrow> (Some TypeError, w)
      | Some table \<Rightarrow>
     (case map_of table (runningVersionKey version) of
        None \<Rightarrow> (Some TypeError, w)
      | Some firmwareArray \<Rightarrow>
          (let first = (case firmwareArray of [] \<Rightarrow> None | x # _ \<Rightarrow> Some x);
               (ok, w1) = config_set_latestRemoteFirmwareVersion first w;
               w2 = (if \<not> ok then emit (ConsoleWarn UnableToSetLatestRemoteFirmwareVersion) w1
                     else w1);
               w3 = emit (ConsoleLog (FirmwareIs first)) w2
           in
     (case firmware_md5sums json of
        None \<Rightarrow> (Some TypeError, w3)
      | Some sums \<Rightarrow>
     (case lookupChecksums sums (propertyName first) of
        None \<Rightarrow> (Some TypeError, w3)
      | Some md5 \<Rightarrow>
          (let w4 = emit (ConsoleLog (HexMD5 (md5_hex md5))) w3;
               w5 = emit (ConsoleLog (EepromMD5 (md5_eeprom md5))) w4
           in
     (case first of
        None \<Rightarrow> (Some TypeError, w5)
      | Some name \<Rightarrow>
          (let v = Version_new (splitDots name)
           in
     (case localVersionExists (listFirmwareFiles env) v of
        Inl e \<Rightarrow> (Some e, w5)
      | Inr found \<Rightarrow>
          (let w6 = (if \<not> found
                     then emit (SaveFirmwareFile
                                  (''http://'' @ locationHost env @ ''/firmware/v'' @ name @ ''.eeprom'')
                                  (md5_eeprom md5))
                            (emit (SaveFirmwareFile
                                     (''http://'' @ locationHost env @ ''/firmware/v'' @ name @ ''.hex'')
                                     (md5_hex md5)) w5)
                     else w5)
           in (None, scheduleFirmwareUpdateCheck (dateNow env) CHECK_INTERVAL w6)))))))))))))"

definition errorResponseHandler :: "environment \<Rightarrow> world \<Rightarrow> world" where
  "errorResponseHandler env w =
     scheduleFirmwareUpdateCheck (dateNow env) 10000 (emit (ConsoleWarn ErrorDownloading) w)"

definition checkForFirmwareUpdate :: "world \<Rightarrow> world" where
  "checkForFirmwareUpdate w = emit (XhrGet ''/firmware/metadata.json'') w"

text \<open>
  One firing of the timer: \<open>checkForFirmwareUpdate\<close> sends the request, and the request
  ends in a \<open>load\<close> event (any completed response, whatever its status) or in an
  \<open>error\<close> event (no response), which runs the handler registered for it.
\<close>

datatype xhr_event = LoadEvent "metadata option" | ErrorEvent

definition timerFires :: "environment \<Rightarrow> xhr_event \<Rightarrow> world \<Rightarrow> error option \<times> world" where
  "timerFires env ev w =
     (let w1 = checkForFirmwareUpdate w
      in case ev of
           LoadEvent body \<Rightarrow> responseHandler env body w1
         | ErrorEvent \<Rightarrow> (None, errorResponseHandler env w1))"

text \<open>The delays of the timers armed in a list of effects.\<close>

fun armedDelays :: "effect list \<Rightarrow> int list" where
  "armedDelays [] = []"
| "armedDelays (SetTimeout d # es) = d # armedDelays es"
| "armedDelays (_ # es) = armedDelays es"

definition clamp :: "int \<Rightarrow> int \<Rightarrow> int \<Rightarrow> int" where
  "clamp x a b = min (max x a) b"

text \<open>
  The statements at the end of the module, run when it is loaded. The clock is read up to
  three times: \<open>nowIfAbsent\<close> stands in for a missing \<open>nextCheck\<close>, \<open>now\<close> is
  subtracted from it, and \<open>nowScheduling\<close> is read inside the scheduling call.
\<close>

definition initialDelay :: "config \<Rightarrow> int \<Rightarrow> int \<Rightarrow> int" where
  "initialDelay cfg nowIfAbsent now =
     (let next = (case nextCheck cfg of None \<Rightarrow> nowIfAbsent | Some t \<Rightarrow> t)
      in clamp (next - now) 0 CHECK_INTERVAL)"

definition moduleLoad :: "int \<Rightarrow> int \<Rightarrow> int \<Rightarrow> world \<Rightarrow> world" where
  "moduleLoad nowIfAbsent now nowScheduling w =
     scheduleFirmwareUpdateCheck nowScheduling (initialDelay (store w) nowIfAbsent now) w"

subsection \<open>Notions of the statements and proofs\<close>

text \<open>
  A stem is complete in a listing when the listing has a file that splits into this stem
  and the extension \<open>.hex\<close> and a file that splits into this stem and the extension
  \<open>.eeprom\<close>.
\<close>

definition completeStem :: "string list \<Rightarrow> string \<Rightarrow> bool" where
  "completeStem files s =
     (\<lparr>stem = s, extension = Some ''.hex''\<rparr> \<in> set (map splitFilename files)
      \<and> \<lparr>stem = s, extension = Some ''.eeprom''\<rparr> \<in> set (map splitFilename files))"

text \<open>
  A bitset is justified by a set of split filenames when each of its two bits is backed
  by a member of the set with that stem and extension.
\<close>

definition bitsJustified :: "fileparts set \<Rightarrow> string \<Rightarrow> nat \<Rightarrow> bool" where
  "bitsJustified P k v =
     ((bit v 0 \<longrightarrow> \<lparr>stem = k, extension = Some ''.hex''\<rparr> \<in> P)
      \<and> (bit v (Suc 0) \<longrightarrow> \<lparr>stem = k, extension = Some ''.eeprom''\<rparr> \<in> P))"

definition rollJustified :: "fileparts set \<Rightarrow> bitsets \<Rightarrow> bool" where
  "rollJustified P fws = (\<forall>(k, v) \<in> set fws. bitsJustified P k v)"

text \<open>
  The stems that disturb the roll call: \<open>false\<close> and \<open>true\<close> are the names the
  initialisation test looks up, the other two are the inherited names that a stored
  bitset cannot replace or must not replace.
\<close>

definition reservedStems :: "string set" where
  "reservedStems = {''false'', ''true'', ''__proto__'', ''hasOwnProperty''}"

text \<open>
  The roll call is exact for a list of split filenames when its names are the stems of
  the list and each bit of each bitset says whether the list has that stem with that
  extension.
\<close>

definition rollExact :: "fileparts list \<Rightarrow> bitsets \<Rightarrow> bool" where
  "rollExact fs fws =
     (fst ` set fws = stem ` set fs
      \<and> (\<forall>k. getInt32 fws k < 4
            \<and> (bit (getInt32 fws k) 0 \<longleftrightarrow> \<lparr>stem = k, extension = Some ''.hex''\<rparr> \<in> set fs)
            \<and> (bit (getInt32 fws k) (Suc 0) \<longleftrightarrow> \<lparr>stem = k, extension = Some ''.eeprom''\<rparr> \<in> set fs)))"

text \<open>A list of strings joined by dots, the inverse of \<open>splitDots\<close>.\<close>

fun joinDots :: "string list \<Rightarrow> string" where
  "joinDots [] = []"
| "joinDots [p] = p"
| "joinDots (p # q # ps) = p @ CHR ''.'' # joinDots (q # ps)"

section \<open>Properties\<close>

subsection \<open>Facts about the string primitives\<close>

lemma lastIndexOf_range: "- 1 \<le> lastIndexOf a c \<and> lastIndexOf a c < int (length a)"
  by (induction a) (auto simp: Let_def)

lemma lastIndexOf_absent: "c \<notin> set a \<Longrightarrow> lastIndexOf a c = - 1"
  by (induction a) (auto simp: Let_def)

lemma lastIndexOf_present: "c \<in> set a \<Longrightarrow> 0 \<le> lastIndexOf a c"
proof (induction a)
  case Nil
  then show ?case by simp
next
  case (Cons x xs)
  have "- 1 \<le> lastIndexOf xs c" using lastIndexOf_range by blast
  with Cons show ?case by (auto simp: Let_def)
qed

lemma slice_prefix: "0 \<le> i \<Longrightarrow> slice a 0 i = take (nat i) a"
  by (simp add: slice_def relativeIndex_def Let_def min_def)

lemma sliceFrom_suffix: "0 \<le> i \<Longrightarrow> sliceFrom a i = drop (nat i) a"
  by (simp add: sliceFrom_def relativeIndex_def min_def)

lemma splitFilename_join:
  "stem (splitFilename a) @ (case extension (splitFilename a) of None \<Rightarrow> [] | Some e \<Rightarrow> e) = a"
  by (simp add: splitFilename_def Let_def slice_prefix sliceFrom_suffix)

lemma splitFilename_extension:
  "extension (splitFilename a) = Some e \<Longrightarrow> a = stem (splitFilename a) @ e"
  using splitFilename_join [of a] by simp

lemma lastIndexOf_append: "c \<notin> set e \<Longrightarrow> lastIndexOf (s @ c # e) c = int (length s)"
  by (induction s) (simp_all add: lastIndexOf_absent Let_def)

lemma splitFilename_at_last_dot:
  assumes "s \<noteq> []" and "CHR ''.'' \<notin> set e"
  shows "splitFilename (s @ CHR ''.'' # e) = \<lparr>stem = s, extension = Some (CHR ''.'' # e)\<rparr>"
proof -
  have i: "lastIndexOf (s @ CHR ''.'' # e) (CHR ''.'') = int (length s)"
    by (rule lastIndexOf_append [OF assms(2)])
  from assms(1) have "0 < int (length s)" by simp
  then show ?thesis
    by (simp add: splitFilename_def i slice_prefix sliceFrom_suffix)
qed

lemma splitFilename_no_dot:
  "CHR ''.'' \<notin> set a \<Longrightarrow> splitFilename a = \<lparr>stem = a, extension = None\<rparr>"
  by (simp add: splitFilename_def lastIndexOf_absent sliceFrom_suffix)

lemma splitFilename_leading_dot:
  "CHR ''.'' \<notin> set rest \<Longrightarrow>
   splitFilename (CHR ''.'' # rest) = \<lparr>stem = CHR ''.'' # rest, extension = None\<rparr>"
  using lastIndexOf_absent [of "CHR ''.''" rest]
  by (simp add: splitFilename_def sliceFrom_suffix Let_def)

subsection \<open>splitFilename: the cut at the last dot\<close>

text \<open>
  C7: \<open>splitFilename\<close> cuts a filename at its last dot and keeps the dot in the extension.
  For every name \<open>s.e\<close> with a non-empty \<open>s\<close> and no dot in \<open>e\<close> the stem is \<open>s\<close> and the
  extension is \<open>.e\<close>; a name without a dot is its own stem and has no extension; and a
  name whose only dot is its first character has no extension and is its own stem. These
  three cases cover every filename. In particular \<open>a.b.c\<close> gives stem \<open>a.b\<close> and
  extension \<open>.c\<close>, \<open>a.\<close> gives stem \<open>a\<close> and extension \<open>.\<close>, and \<open>a\<close> gives stem \<open>a\<close>
  and no extension.
\<close>

theorem splitFilename_examples_and_leading_dot:
  "splitFilename ''a.b.c'' = \<lparr>stem = ''a.b'', extension = Some ''.c''\<rparr>
   \<and> splitFilename ''a.'' = \<lparr>stem = ''a'', extension = Some ''.''\<rparr>
   \<and> splitFilename ''a'' = \<lparr>stem = ''a'', extension = None\<rparr>
   \<and> (\<forall>s e. s \<noteq> [] \<and> CHR ''.'' \<notin> set e \<longrightarrow>
         splitFilename (s @ CHR ''.'' # e) = \<lparr>stem = s, extension = Some (CHR ''.'' # e)\<rparr>)
   \<and> (\<forall>a. CHR ''.'' \<notin> set a \<longrightarrow> splitFilename a = \<lparr>stem = a, extension = None\<rparr>)
   \<and> (\<forall>rest. CHR ''.'' \<notin> set rest \<longrightarrow>
         splitFilename (CHR ''.'' # rest) = \<lparr>stem = CHR ''.'' # rest, extension = None\<rparr>)
   \<and> (\<forall>a. (\<exists>s e. s \<noteq> [] \<and> CHR ''.'' \<notin> set e \<and> a = s @ CHR ''.'' # e)
           \<or> CHR ''.'' \<notin> set a
           \<or> (\<exists>rest. CHR ''.'' \<notin> set rest \<and> a = CHR ''.'' # rest))"
proof -
  have e1: "splitFilename ''a.b.c'' = \<lparr>stem = ''a.b'', extension = Some ''.c''\<rparr>"
    using splitFilename_at_last_dot [of "''a.b''" "''c''"] by simp
  have e2: "splitFilename ''a.'' = \<lparr>stem = ''a'', extension = Some ''.''\<rparr>"
    using splitFilename_at_last_dot [of "''a''" "[]"] by simp
  have e3: "splitFilename ''a'' = \<lparr>stem = ''a'', extension = None\<rparr>"
    using splitFilename_no_dot [of "''a''"] by simp
  have cover: "(\<exists>s e. s \<noteq> [] \<and> CHR ''.'' \<notin> set e \<and> a = s @ CHR ''.'' # e)
           \<or> CHR ''.'' \<notin> set a
           \<or> (\<exists>rest. CHR ''.'' \<notin> set rest \<and> a = CHR ''.'' # rest)" for a
  proof (cases "CHR ''.'' \<in> set a")
    case False
    then show ?thesis by simp
  next
    case True
    then obtain s e where a: "a = s @ CHR ''.'' # e" "CHR ''.'' \<notin> set e"
      using split_list_last [of "CHR ''.''" a] by blast
    then show ?thesis by (cases "s = []") auto
  qed
  from e1 e2 e3 cover splitFilename_at_last_dot splitFilename_no_dot splitFilename_leading_dot
  show ?thesis by blast
qed

theorem splitFilename_examples_and_leading_dot_witness:
  "splitFilename ''.a.hex'' = \<lparr>stem = ''.a'', extension = Some ''.hex''\<rparr>
   \<and> splitFilename ''readme'' = \<lparr>stem = ''readme'', extension = None\<rparr>
   \<and> splitFilename ''.bashrc'' = \<lparr>stem = ''.bashrc'', extension = None\<rparr>"
proof -
  have 1: "splitFilename (''.a'' @ CHR ''.'' # ''hex'') = \<lparr>stem = ''.a'', extension = Some (CHR ''.'' # ''hex'')\<rparr>"
    using splitFilename_examples_and_leading_dot by (simp del: append.simps)
  have 2: "splitFilename ''readme'' = \<lparr>stem = ''readme'', extension = None\<rparr>"
    using splitFilename_examples_and_leading_dot by simp
  have 3: "splitFilename (CHR ''.'' # ''bashrc'') = \<lparr>stem = CHR ''.'' # ''bashrc'', extension = None\<rparr>"
    using splitFilename_examples_and_leading_dot by simp
  from 1 2 3 show ?thesis by simp
qed

subsection \<open>splitFilename loses nothing\<close>

text \<open>
  C10: for every filename \<open>a\<close>, the stem of \<open>splitFilename a\<close> followed by its extension
  (the empty string when the extension is \<open>null\<close>) is \<open>a\<close> again.
\<close>

theorem splitFilename_lossless:
  "stem (splitFilename a) @ (case extension (splitFilename a) of None \<Rightarrow> [] | Some e \<Rightarrow> e) = a"
  by (rule splitFilename_join)

subsection \<open>Every reported stem is complete\<close>

lemma bitsJustified_zero: "bitsJustified P k 0"
  by (simp add: bitsJustified_def)

lemma bitsJustified_three:
  "bitsJustified P k 3 \<Longrightarrow>
   \<lparr>stem = k, extension = Some ''.hex''\<rparr> \<in> P \<and> \<lparr>stem = k, extension = Some ''.eeprom''\<rparr> \<in> P"
  by (simp add: bitsJustified_def bit_iff_odd)

lemma bitsJustified_hex:
  "bitsJustified P k v \<Longrightarrow> (b \<Longrightarrow> \<lparr>stem = k, extension = Some ''.hex''\<rparr> \<in> P)
   \<Longrightarrow> bitsJustified P k (v OR of_bool b)"
  by (auto simp: bitsJustified_def bit_or_iff bit_of_bool_iff)

lemma bitsJustified_eeprom:
  "bitsJustified P k v \<Longrightarrow> (b \<Longrightarrow> \<lparr>stem = k, extension = Some ''.eeprom''\<rparr> \<in> P)
   \<Longrightarrow> bitsJustified P k (v OR push_bit 1 (of_bool b))"
  by (auto simp: bitsJustified_def bit_or_iff bit_push_bit_iff bit_of_bool_iff)

lemma getInt32_justified: "rollJustified P fws \<Longrightarrow> bitsJustified P k (getInt32 fws k)"
  by (auto simp: rollJustified_def getInt32_def bitsJustified_zero split: option.splits
           dest!: map_of_SomeD)

lemma setOwn_subset: "set (setOwn fws k v) \<subseteq> insert (k, v) (set fws)"
  by (induction fws) (auto split: if_splits)

lemma putProperty_justified:
  "rollJustified P fws \<Longrightarrow> bitsJustified P k v \<Longrightarrow> rollJustified P (putProperty fws k v)"
  using setOwn_subset [of fws k v]
  by (auto simp: rollJustified_def putProperty_def)

lemma rollCall_justified:
  assumes inv: "rollJustified P fws" and mem: "f \<in> P"
  shows "rollJustified P (rollCall fws f)"
proof -
  let ?k = "stem f"
  have hex: "\<lparr>stem = ?k, extension = Some ''.hex''\<rparr> \<in> P" if "extension f = Some ''.hex''"
  proof -
    from that have "\<lparr>stem = ?k, extension = Some ''.hex''\<rparr> = f" by (cases f) simp
    with mem show ?thesis by simp
  qed
  have eep: "\<lparr>stem = ?k, extension = Some ''.eeprom''\<rparr> \<in> P" if "extension f = Some ''.eeprom''"
  proof -
    from that have "\<lparr>stem = ?k, extension = Some ''.eeprom''\<rparr> = f" by (cases f) simp
    with mem show ?thesis by simp
  qed
  define fws1 where
    "fws1 = (if hasProperty (booleanToString (?k = [])) fws then putProperty fws ?k 0 else fws)"
  define fws2 where
    "fws2 = putProperty fws1 ?k (getInt32 fws1 ?k OR of_bool (extension f = Some ''.hex''))"
  define fws3 where
    "fws3 = putProperty fws2 ?k
              (getInt32 fws2 ?k OR push_bit 1 (of_bool (extension f = Some ''.eeprom'')))"
  have 1: "rollJustified P fws1"
    unfolding fws1_def using inv by (simp add: putProperty_justified bitsJustified_zero)
  have 2: "rollJustified P fws2"
    unfolding fws2_def
    by (intro putProperty_justified 1 bitsJustified_hex getInt32_justified hex)
  have 3: "rollJustified P fws3"
    unfolding fws3_def
    by (intro putProperty_justified 2 bitsJustified_eeprom getInt32_justified eep)
  have "rollCall fws f = fws3"
    by (simp add: rollCall_def Let_def fws1_def fws2_def fws3_def)
  with 3 show ?thesis by simp
qed

lemma foldl_rollCall_justified:
  "rollJustified P fws \<Longrightarrow> set fs \<subseteq> P \<Longrightarrow> rollJustified P (foldl rollCall fws fs)"
  by (induction fs arbitrary: fws) (simp_all add: rollCall_justified)

lemma forInKeys_set: "set (forInKeys fws) = fst ` set fws"
  by (auto simp: forInKeys_def Let_def)

lemma firmwareFileStems_sound:
  assumes "firmwareFileStems files = Inr stems" and "s \<in> set stems"
  shows "completeStem files s"
proof -
  define fws where "fws = foldl rollCall [] (map splitFilename files)"
  have inv: "rollJustified (set (map splitFilename files)) fws"
    unfolding fws_def by (rule foldl_rollCall_justified) (simp_all add: rollJustified_def)
  from assms have "getInt32 fws s = 3"
    by (auto simp: firmwareFileStems_def Let_def fws_def split: if_splits)
  with getInt32_justified [OF inv, of s] show ?thesis
    unfolding completeStem_def using bitsJustified_three by metis
qed

lemma completeStem_files:
  assumes "completeStem files s"
  shows "s @ ''.hex'' \<in> set files \<and> s @ ''.eeprom'' \<in> set files"
proof -
  from assms obtain a b where
    a: "a \<in> set files" "splitFilename a = \<lparr>stem = s, extension = Some ''.hex''\<rparr>" and
    b: "b \<in> set files" "splitFilename b = \<lparr>stem = s, extension = Some ''.eeprom''\<rparr>"
    by (auto simp: completeStem_def)
  from a(2) have "a = s @ ''.hex''" using splitFilename_extension [of a "''.hex''"] by simp
  moreover from b(2) have "b = s @ ''.eeprom''"
    using splitFilename_extension [of b "''.eeprom''"] by simp
  ultimately show ?thesis using a(1) b(1) by simp
qed

lemma completeStem_iff_files:
  assumes "s \<noteq> []"
  shows "completeStem files s \<longleftrightarrow> s @ ''.hex'' \<in> set files \<and> s @ ''.eeprom'' \<in> set files"
proof
  assume "completeStem files s"
  then show "s @ ''.hex'' \<in> set files \<and> s @ ''.eeprom'' \<in> set files"
    by (rule completeStem_files)
next
  assume h: "s @ ''.hex'' \<in> set files \<and> s @ ''.eeprom'' \<in> set files"
  have 1: "splitFilename (s @ ''.hex'') = \<lparr>stem = s, extension = Some ''.hex''\<rparr>"
    using splitFilename_at_last_dot [OF assms, of "''hex''"] by simp
  have 2: "splitFilename (s @ ''.eeprom'') = \<lparr>stem = s, extension = Some ''.eeprom''\<rparr>"
    using splitFilename_at_last_dot [OF assms, of "''eeprom''"] by simp
  from h 1 2 show "completeStem files s"
    unfolding completeStem_def by (metis image_eqI set_map)
qed

subsection \<open>Without a reserved stem the roll call is exact\<close>

lemma getInt32_setOwn: "getInt32 (setOwn fws k v) k' = (if k' = k then v else getInt32 fws k')"
  by (induction fws) (auto simp: getInt32_def)

lemma keys_setOwn: "fst ` set (setOwn fws k v) = insert k (fst ` set fws)"
  by (induction fws k v rule: setOwn.induct) auto

lemma map_of_None_keys: "map_of fws k = None \<longleftrightarrow> k \<notin> fst ` set fws"
  by (simp add: map_of_eq_None_iff)

lemma rollCall_plain:
  assumes "''false'' \<notin> fst ` set fws" and "''true'' \<notin> fst ` set fws"
    and "stem f \<noteq> ''__proto__''"
  shows "rollCall fws f =
           setOwn (setOwn fws (stem f) (getInt32 fws (stem f) OR of_bool (extension f = Some ''.hex'')))
             (stem f)
             (getInt32 fws (stem f) OR of_bool (extension f = Some ''.hex'')
                OR push_bit 1 (of_bool (extension f = Some ''.eeprom'')))"
proof -
  have "\<not> hasProperty (booleanToString (stem f = [])) fws"
    using assms(1,2)
    by (auto simp: hasProperty_def booleanToString_def map_of_None_keys objectPrototypeNames_def)
  with assms(3) show ?thesis
    by (simp add: rollCall_def Let_def putProperty_def getInt32_setOwn)
qed

lemma or_bits_small:
  "(v::nat) < 4 \<Longrightarrow> v OR of_bool b OR push_bit 1 (of_bool c) < 4"
proof -
  assume "v < 4"
  then have "v = 0 \<or> v = 1 \<or> v = 2 \<or> v = 3" by arith
  then show ?thesis by (cases b; cases c) auto
qed

lemma flag_bits:
  "bit (of_bool b :: nat) 0 = b" "bit (of_bool b :: nat) (Suc 0) = False"
  "bit (push_bit 1 (of_bool c) :: nat) 0 = False" "bit (push_bit 1 (of_bool c) :: nat) (Suc 0) = c"
  by (cases b; cases c; simp add: bit_iff_odd)+

lemma rollExact_step:
  assumes inv: "rollExact fs fws" and res: "stem ` set (fs @ [f]) \<inter> reservedStems = {}"
  shows "rollExact (fs @ [f]) (rollCall fws f)"
proof -
  let ?k = "stem f"
  let ?h = "extension f = Some ''.hex''"
  let ?e = "extension f = Some ''.eeprom''"
  define hb :: nat where "hb = of_bool ?h"
  define eb :: nat where "eb = push_bit 1 (of_bool ?e)"
  have bits: "bit hb 0 = ?h" "bit hb (Suc 0) = False" "bit eb 0 = False" "bit eb (Suc 0) = ?e"
    unfolding hb_def eb_def by (rule flag_bits)+
  from inv have keys: "fst ` set fws = stem ` set fs" by (simp add: rollExact_def)
  with res have nf: "''false'' \<notin> fst ` set fws" and nt: "''true'' \<notin> fst ` set fws"
    by (auto simp: reservedStems_def)
  from res have np: "?k \<noteq> ''__proto__''" by (auto simp: reservedStems_def)
  have rc: "rollCall fws f = setOwn (setOwn fws ?k (getInt32 fws ?k OR hb)) ?k (getInt32 fws ?k OR hb OR eb)"
    unfolding hb_def eb_def by (rule rollCall_plain [OF nf nt np])
  have g: "getInt32 (rollCall fws f) k = (if k = ?k then getInt32 fws ?k OR hb OR eb else getInt32 fws k)"
    for k
    by (simp add: rc getInt32_setOwn)
  have ks: "fst ` set (rollCall fws f) = stem ` set (fs @ [f])"
    by (simp add: rc keys_setOwn keys)
  have "getInt32 fws ?k OR hb OR eb < 4"
    unfolding hb_def eb_def using inv by (intro or_bits_small) (simp add: rollExact_def)
  then have small: "getInt32 (rollCall fws f) k < 4" for k
    using inv by (simp add: g rollExact_def)
  have f_eq: "\<lparr>stem = k, extension = x\<rparr> = f \<longleftrightarrow> k = ?k \<and> x = extension f" for k x
    by (cases f) auto
  have b0: "bit (getInt32 (rollCall fws f) k) 0
              \<longleftrightarrow> \<lparr>stem = k, extension = Some ''.hex''\<rparr> \<in> set (fs @ [f])" for k
    using inv by (auto simp: g rollExact_def bit_or_iff bits f_eq)
  have b1: "bit (getInt32 (rollCall fws f) k) (Suc 0)
              \<longleftrightarrow> \<lparr>stem = k, extension = Some ''.eeprom''\<rparr> \<in> set (fs @ [f])" for k
    using inv by (auto simp: g rollExact_def bit_or_iff bits f_eq)
  from ks small b0 b1 show ?thesis unfolding rollExact_def by blast
qed

lemma rollExact_foldl:
  "rollExact fs fws \<Longrightarrow> stem ` set (fs @ gs) \<inter> reservedStems = {}
   \<Longrightarrow> rollExact (fs @ gs) (foldl rollCall fws gs)"
proof (induction gs arbitrary: fs fws)
  case Nil
  then show ?case by simp
next
  case (Cons g gs)
  from Cons.prems(2) have "stem ` set (fs @ [g]) \<inter> reservedStems = {}" by auto
  from rollExact_step [OF Cons.prems(1) this] Cons.prems(2)
  have "rollExact ((fs @ [g]) @ gs) (foldl rollCall (rollCall fws g) gs)"
    by (intro Cons.IH) simp_all
  then show ?case by simp
qed

lemma three_iff_bits: "(v::nat) < 4 \<Longrightarrow> v = 3 \<longleftrightarrow> bit v 0 \<and> bit v (Suc 0)"
proof -
  assume "v < 4"
  then have "v = 0 \<or> v = 1 \<or> v = 2 \<or> v = 3" by arith
  then show ?thesis by (auto simp: bit_iff_odd)
qed

lemma firmwareFileStems_exact:
  assumes "\<forall>a \<in> set files. stem (splitFilename a) \<notin> reservedStems"
  shows "\<exists>stems. firmwareFileStems files = Inr stems \<and> set stems = {s. completeStem files s}"
proof -
  define fws where "fws = foldl rollCall [] (map splitFilename files)"
  from assms have free: "stem ` set ([] @ map splitFilename files) \<inter> reservedStems = {}"
    by auto
  have "rollExact [] []" by (simp add: rollExact_def getInt32_def)
  from rollExact_foldl [OF this free]
  have ex: "rollExact (map splitFilename files) fws" by (simp add: fws_def)
  then have keys: "fst ` set fws = stem ` set (map splitFilename files)"
    by (simp add: rollExact_def)
  with assms have "''hasOwnProperty'' \<notin> fst ` set fws" by (auto simp: reservedStems_def)
  then have no: "map_of fws ''hasOwnProperty'' = None" by (simp add: map_of_None_keys)
  have three: "getInt32 fws s = 3 \<longleftrightarrow> completeStem files s" for s
    using ex three_iff_bits [of "getInt32 fws s"] by (simp add: rollExact_def completeStem_def)
  have mem: "s \<in> fst ` set fws" if "getInt32 fws s = 3" for s
  proof -
    from that three have "\<lparr>stem = s, extension = Some ''.hex''\<rparr> \<in> set (map splitFilename files)"
      by (simp add: completeStem_def)
    then have "stem \<lparr>stem = s, extension = Some ''.hex''\<rparr> \<in> stem ` set (map splitFilename files)"
      by (rule imageI)
    with keys show ?thesis by simp
  qed
  have "firmwareFileStems files = Inr (filter (\<lambda>stem. getInt32 fws stem = 3) (forInKeys fws))"
    using no by (simp add: firmwareFileStems_def Let_def fws_def)
  moreover have "set (filter (\<lambda>stem. getInt32 fws stem = 3) (forInKeys fws))
                   = {s. getInt32 fws s = 3}"
    using mem by (auto simp: forInKeys_set)
  ultimately show ?thesis using three by auto
qed

subsection \<open>Facts about versions and the version list\<close>

lemma version_less_trans: "version_less a b \<Longrightarrow> version_less b c \<Longrightarrow> version_less a c"
  by (auto simp: version_less_def)

lemma version_less_total: "version_less a b \<or> a = b \<or> version_less b a"
  by (cases a; cases b) (auto simp: version_less_def)

lemma version_le_trans: "version_le a b \<Longrightarrow> version_le b c \<Longrightarrow> version_le a c"
  using version_less_trans by (auto simp: version_le_def)

lemma Version_max_cases: "Version_max a b = a \<or> Version_max a b = b"
  by (simp add: Version_max_def)

lemma Version_max_upper: "version_le a (Version_max a b) \<and> version_le b (Version_max a b)"
  using version_less_total [of a b] by (auto simp: Version_max_def version_le_def)

lemma Version_eq_Some: "Version_eq x (Some y) \<longleftrightarrow> x = y"
  by (cases x; cases y) (simp add: Version_eq_def)

lemma Version_eq_None: "\<not> Version_eq x None"
  by (simp add: Version_eq_def)

lemma foldl_selects:
  "(\<And>a b. f a b = a \<or> f a b = b) \<Longrightarrow> foldl f x xs \<in> insert x (set xs)"
proof (induction xs arbitrary: x)
  case Nil
  then show ?case by simp
next
  case (Cons y ys)
  from Cons.IH [OF Cons.prems, of "f x y"] Cons.prems [of x y] show ?case by auto
qed

lemma reduce_selects:
  "(\<And>a b. f a b = a \<or> f a b = b) \<Longrightarrow> reduce f xs = Inr r \<Longrightarrow> r \<in> set xs"
  using foldl_selects [of f] by (auto simp: reduce_def split: list.splits)

lemma foldl_Version_max_upper:
  "version_le x (foldl Version_max x xs) \<and> (\<forall>y \<in> set xs. version_le y (foldl Version_max x xs))"
proof (induction xs arbitrary: x)
  case Nil
  then show ?case by (simp add: version_le_def)
next
  case (Cons y ys)
  have a: "version_le x (Version_max x y)" and b: "version_le y (Version_max x y)"
    using Version_max_upper by blast+
  from Cons [of "Version_max x y"] a b show ?case
    using version_le_trans by auto
qed

lemma reduce_Version_max:
  "xs \<noteq> [] \<Longrightarrow> \<exists>m. reduce Version_max xs = Inr m \<and> m \<in> set xs \<and> (\<forall>y \<in> set xs. version_le y m)"
proof (cases xs)
  case Nil
  assume "xs \<noteq> []"
  with Nil show ?thesis by simp
next
  case (Cons x rest)
  have "foldl Version_max x rest \<in> insert x (set rest)"
    by (rule foldl_selects) (rule Version_max_cases)
  with foldl_Version_max_upper [of x rest] Cons show ?thesis
    by (auto simp: reduce_def)
qed

lemma reduce_empty: "reduce f [] = Inl TypeError"
  by (simp add: reduce_def)

lemma localVersionExists_iff:
  "localVersionList files = Inr vs \<Longrightarrow>
   localVersionExists files v = Inr (\<exists>x. v = Some x \<and> x \<in> set vs)"
  by (cases v) (auto simp: localVersionExists_def list_ex_iff Version_eq_Some Version_eq_None)

lemma latestVersion_unfold:
  assumes "localVersionList files = Inr vs"
  shows "latestVersion cfg files =
           (case reduce Version_max vs of
              Inl e \<Rightarrow> Inl e
            | Inr lv \<Rightarrow>
                Inr (if \<exists>x. Version_fromString (latestRemoteFirmwareVersion cfg) = Some x \<and> x \<in> set vs
                     then Version_fromString (latestRemoteFirmwareVersion cfg) else Some lv))"
  using assms localVersionExists_iff [OF assms]
  by (simp add: latestVersion_def Let_def split: sum.splits)

lemma dropV_simps:
  "dropV [] = None" "dropV (c # rest) = (if c = CHR ''v'' then Some rest else None)"
  by (simp_all add: dropV_def sliceFrom_def relativeIndex_def)

lemma localVersionList_members:
  assumes "firmwareFileStems files = Inr stems"
  shows "\<exists>vs. localVersionList files = Inr vs
           \<and> (\<forall>v. v \<in> set vs \<longleftrightarrow> (\<exists>s \<in> set stems. Version_fromString (dropV s) = Some v))"
  using assms by (force simp: localVersionList_def image_iff)

lemma Version_fromString_None: "Version_fromString None = None"
  by (simp add: Version_fromString_def)

subsection \<open>Facts about the version parser\<close>


lemma joinDots_Cons: "ps \<noteq> [] \<Longrightarrow> joinDots ((c # p) # ps') = c # joinDots (p # ps')"
  by (cases ps') simp_all





lemma Version_fromString_dropV:
  assumes "Version_fromString (dropV s) = Some v"
  shows "\<exists>rest. s = CHR ''v'' # rest \<and> Version_fromString (Some rest) = Some v"
proof (cases s)
  case Nil
  with assms show ?thesis by (simp add: dropV_simps Version_fromString_None)
next
  case (Cons c rest)
  with assms show ?thesis
    by (cases "c = CHR ''v''") (simp_all add: dropV_simps Version_fromString_None)
qed

lemma localVersionList_sound:
  assumes "localVersionList files = Inr vs" and "v \<in> set vs"
  shows "\<exists>rest. completeStem files (CHR ''v'' # rest) \<and> Version_fromString (Some rest) = Some v"
proof -
  from assms(1) obtain stems where stems: "firmwareFileStems files = Inr stems"
    by (cases "firmwareFileStems files") (auto simp: localVersionList_def)
  from localVersionList_members [OF stems] assms obtain s where
    s: "s \<in> set stems" "Version_fromString (dropV s) = Some v" by auto
  from Version_fromString_dropV [OF s(2)] obtain rest where
    rest: "s = CHR ''v'' # rest" "Version_fromString (Some rest) = Some v" by blast
  from firmwareFileStems_sound [OF stems s(1)] rest show ?thesis by blast
qed

lemma localVersionList_exact:
  assumes "\<forall>a \<in> set files. stem (splitFilename a) \<notin> reservedStems"
  shows "\<exists>vs. localVersionList files = Inr vs
           \<and> (\<forall>v. v \<in> set vs \<longleftrightarrow>
                  (\<exists>rest. completeStem files (CHR ''v'' # rest)
                         \<and> Version_fromString (Some rest) = Some v))"
proof -
  from firmwareFileStems_exact [OF assms] obtain stems where
    stems: "firmwareFileStems files = Inr stems" "set stems = {s. completeStem files s}" by blast
  from localVersionList_members [OF stems(1)] obtain vs where
    vs: "localVersionList files = Inr vs"
        "\<forall>v. v \<in> set vs \<longleftrightarrow> (\<exists>s \<in> set stems. Version_fromString (dropV s) = Some v)" by blast
  have "v \<in> set vs \<longleftrightarrow>
          (\<exists>rest. completeStem files (CHR ''v'' # rest) \<and> Version_fromString (Some rest) = Some v)"
    for v
  proof
    assume "v \<in> set vs"
    from localVersionList_sound [OF vs(1) this]
    show "\<exists>rest. completeStem files (CHR ''v'' # rest) \<and> Version_fromString (Some rest) = Some v" .
  next
    assume "\<exists>rest. completeStem files (CHR ''v'' # rest) \<and> Version_fromString (Some rest) = Some v"
    then obtain rest where
      r: "completeStem files (CHR ''v'' # rest)" "Version_fromString (Some rest) = Some v" by blast
    from r(1) stems(2) have "CHR ''v'' # rest \<in> set stems" by simp
    moreover from r(2) have "Version_fromString (dropV (CHR ''v'' # rest)) = Some v"
      by (simp add: dropV_simps)
    ultimately show "v \<in> set vs" using vs(2) by blast
  qed
  with vs(1) show ?thesis by blast
qed

subsection \<open>latestVersion on the version list\<close>

text \<open>
  On the list that \<open>localVersionList\<close> computes the resolution is as intended: the parsed
  remote version wins when it is a member, and otherwise, on a non-empty list, the result
  is a member that every member is below or equal to.
\<close>

lemma latestVersion_on_version_list:
  assumes "localVersionList files = Inr vs"
  shows "(\<forall>v. Version_fromString (latestRemoteFirmwareVersion cfg) = Some v \<and> v \<in> set vs
               \<longrightarrow> latestVersion cfg files = Inr (Some v))
         \<and> (vs \<noteq> [] \<and> \<not> (\<exists>v. Version_fromString (latestRemoteFirmwareVersion cfg) = Some v \<and> v \<in> set vs)
               \<longrightarrow> (\<exists>m. latestVersion cfg files = Inr (Some m) \<and> m \<in> set vs
                         \<and> (\<forall>x \<in> set vs. version_le x m)))"
proof (intro conjI allI impI)
  fix v
  assume h: "Version_fromString (latestRemoteFirmwareVersion cfg) = Some v \<and> v \<in> set vs"
  then have "vs \<noteq> []" by auto
  from reduce_Version_max [OF this] obtain m where "reduce Version_max vs = Inr m" by blast
  with h show "latestVersion cfg files = Inr (Some v)"
    by (auto simp: latestVersion_unfold [OF assms])
next
  assume h: "vs \<noteq> [] \<and> \<not> (\<exists>v. Version_fromString (latestRemoteFirmwareVersion cfg) = Some v \<and> v \<in> set vs)"
  then have "vs \<noteq> []" by simp
  from reduce_Version_max [OF this] obtain m where
    m: "reduce Version_max vs = Inr m" "m \<in> set vs" "\<forall>y \<in> set vs. version_le y m" by blast
  from h m(1) have "latestVersion cfg files = Inr (Some m)"
    by (auto simp: latestVersion_unfold [OF assms])
  with m show "\<exists>m. latestVersion cfg files = Inr (Some m) \<and> m \<in> set vs \<and> (\<forall>x \<in> set vs. version_le x m)"
    by blast
qed

lemma latestVersion_remote_stocked:
  assumes "\<forall>a \<in> set files. stem (splitFilename a) \<notin> reservedStems"
    and "Version_fromString (latestRemoteFirmwareVersion cfg) = Some v"
    and "completeStem files (CHR ''v'' # rest)"
    and "Version_fromString (Some rest) = Some v"
  shows "latestVersion cfg files = Inr (Some v)"
proof -
  from localVersionList_exact [OF assms(1)] assms(3,4) obtain vs where
    vs: "localVersionList files = Inr vs" "v \<in> set vs" by blast
  from latestVersion_on_version_list [OF vs(1), of cfg] assms(2) vs(2) show ?thesis by blast
qed

subsection \<open>latestVersion and a remote version whose pair is listed\<close>

text \<open>
  C1: \<open>latestVersion\<close> is to return the persisted \<open>latestRemoteFirmwareVersion\<close>
  whenever it parses as a version and a complete file pair for exactly that version
  exists, even if a larger version is in stock. It does so when no listed stem is a
  reserved name (\<open>latestVersion_remote_stocked\<close>). But in the listing below the pair
  \<open>v1.0.0.hex\<close>, \<open>v1.0.0.eeprom\<close> is complete and the remote version is \<open>1.0.0\<close>, and
  the function returns \<open>2.0.0\<close>: the file \<open>false.hex\<close> comes before the pair, so the
  roll call of \<open>firmwareFileStems\<close> resets the bitset of \<open>v1.0.0\<close> at each of its files
  and the pair never enters the version list. Without the \<open>2.0.0\<close> pair the same
  listing makes the function raise a TypeError.
\<close>

theorem latestVersion_misses_listed_remote_pair:
  "completeStem [''v2.0.0.hex'', ''v2.0.0.eeprom'', ''false.hex'', ''v1.0.0.hex'', ''v1.0.0.eeprom'']
     ''v1.0.0''
   \<and> Version_fromString (dropV ''v1.0.0'') = Some \<lparr>major = 1, minor = 0, patch = 0\<rparr>
   \<and> Version_fromString (Some ''1.0.0'') = Some \<lparr>major = 1, minor = 0, patch = 0\<rparr>
   \<and> latestVersion \<lparr>latestRemoteFirmwareVersion = Some ''1.0.0'', nextCheck = None, accepts = (\<lambda>k. True)\<rparr>
        [''v2.0.0.hex'', ''v2.0.0.eeprom'', ''false.hex'', ''v1.0.0.hex'', ''v1.0.0.eeprom'']
      = Inr (Some \<lparr>major = 2, minor = 0, patch = 0\<rparr>)
   \<and> latestVersion \<lparr>latestRemoteFirmwareVersion = Some ''1.0.0'', nextCheck = None, accepts = (\<lambda>k. True)\<rparr> [''false.hex'', ''v1.0.0.hex'', ''v1.0.0.eeprom''] = Inl TypeError"
  by code_simp

subsection \<open>latestVersion with no local version\<close>

text \<open>
  C3, as the code has it: when the local version list is empty, \<open>latestVersion\<close> does
  not return; \<open>reduce\<close> without an initial value raises a TypeError on the empty list.
\<close>

theorem latestVersion_empty_raises:
  "localVersionList files = Inr [] \<Longrightarrow> latestVersion cfg files = Inl TypeError"
  by (simp add: latestVersion_def reduce_def)

theorem latestVersion_empty_raises_witness:
  "localVersionList [''v2.0.0.hex''] = Inr []
   \<and> latestVersion \<lparr>latestRemoteFirmwareVersion = None, nextCheck = None, accepts = (\<lambda>k. True)\<rparr>
        [''v2.0.0.hex''] = Inl TypeError"
proof -
  have l: "localVersionList [''v2.0.0.hex''] = Inr []"
    by code_simp
  from latestVersion_empty_raises [OF l] l show ?thesis by simp
qed

text \<open>
  The claim as written, that the empty case returns \<open>undefined\<close> instead of raising,
  fails on the empty file listing.
\<close>

theorem latestVersion_empty_counterexample:
  "localVersionList [] = Inr []
   \<and> latestVersion \<lparr>latestRemoteFirmwareVersion = None, nextCheck = None, accepts = (\<lambda>k. True)\<rparr> []
       \<noteq> Inr None
   \<and> latestVersion \<lparr>latestRemoteFirmwareVersion = None, nextCheck = None, accepts = (\<lambda>k. True)\<rparr> []
       = Inl TypeError"
  by (simp add: latestVersion_def localVersionList_def firmwareFileStems_def forInKeys_def
        reduce_def)

subsection \<open>localVersionList: which stems become versions\<close>




subsection \<open>What latestVersion returns is in stock\<close>

lemma latestVersion_in_stock:
  assumes "latestVersion cfg files = Inr (Some v)"
  shows "(\<exists>vs. localVersionList files = Inr vs \<and> v \<in> set vs)
         \<and> (\<exists>s. completeStem files s \<and> s @ ''.hex'' \<in> set files \<and> s @ ''.eeprom'' \<in> set files
                \<and> Version_fromString (dropV s) = Some v)"
proof -
  from assms obtain vs where vs: "localVersionList files = Inr vs"
    by (cases "localVersionList files") (auto simp: latestVersion_def)
  from assms have "vs \<noteq> []"
    by (auto simp: latestVersion_unfold [OF vs] reduce_empty)
  from reduce_Version_max [OF this] obtain m where
    m: "reduce Version_max vs = Inr m" "m \<in> set vs" by blast
  from assms m have mem: "v \<in> set vs"
    by (auto simp: latestVersion_unfold [OF vs] split: if_splits)
  from localVersionList_sound [OF vs mem] obtain rest where
    rest: "completeStem files (CHR ''v'' # rest)" "Version_fromString (Some rest) = Some v"
    by blast
  from rest(2) have "Version_fromString (dropV (CHR ''v'' # rest)) = Some v"
    by (simp add: dropV_simps)
  with rest(1) completeStem_files [OF rest(1)] vs mem show ?thesis by blast
qed

lemma startUpdater_on_version_list:
  assumes "localVersionList files = Inr vs" and "vs \<noteq> []"
  shows "\<exists>v. startUpdater cfg files
               = Inr (Some v, ''v'' @ Version_toString v @ ''.hex'',
                      ''v'' @ Version_toString v @ ''.eeprom'')
             \<and> v \<in> set vs"
proof -
  from reduce_Version_max [OF assms(2)] obtain m where
    m: "reduce Version_max vs = Inr m" "m \<in> set vs" by blast
  then have "\<exists>v. latestVersion cfg files = Inr (Some v) \<and> v \<in> set vs"
    by (auto simp: latestVersion_unfold [OF assms(1)])
  then show ?thesis
    by (auto simp: startUpdater_def versionText_def Let_def)
qed

lemma startUpdater_flashes_stock:
  assumes "\<forall>a \<in> set files. stem (splitFilename a) \<notin> reservedStems"
    and "completeStem files (CHR ''v'' # rest)"
    and "Version_fromString (Some rest) = Some u"
  shows "\<exists>v s. startUpdater cfg files
                 = Inr (Some v, ''v'' @ Version_toString v @ ''.hex'',
                        ''v'' @ Version_toString v @ ''.eeprom'')
               \<and> completeStem files s \<and> Version_fromString (dropV s) = Some v"
proof -
  from localVersionList_exact [OF assms(1)] assms(2,3) obtain vs where
    vs: "localVersionList files = Inr vs" "u \<in> set vs" by blast
  then have "vs \<noteq> []" by auto
  from startUpdater_on_version_list [OF vs(1) this, of cfg] obtain v where
    v: "startUpdater cfg files
          = Inr (Some v, ''v'' @ Version_toString v @ ''.hex'', ''v'' @ Version_toString v @ ''.eeprom'')"
       "v \<in> set vs" by blast
  from localVersionList_sound [OF vs(1) v(2)] obtain r where
    r: "completeStem files (CHR ''v'' # r)" "Version_fromString (Some r) = Some v" by blast
  from r(2) have "Version_fromString (dropV (CHR ''v'' # r)) = Some v" by (simp add: dropV_simps)
  with v(1) r(1) show ?thesis by blast
qed

subsection \<open>startUpdater and a listed pair that is not in stock\<close>


subsection \<open>firmwareFileStems and a stem named false\<close>

text \<open>
  C5: \<open>firmwareFileStems\<close> is to return exactly the stems that have both a \<open>.hex\<close> and
  an \<open>.eeprom\<close> file. The documented example evaluates to \<open>d\<close> alone, as claimed. But
  once a stem \<open>false\<close> is a property of \<open>fws\<close>, the test \<open>!file.stem in fws\<close> holds for
  every later file, each file resets the bitset of its stem before setting its one bit,
  and the complete pair \<open>d.hex\<close>, \<open>d.eeprom\<close> is not reported. (When no stem is one of
  the reserved names the result is exact: \<open>firmwareFileStems_exact\<close>.)
\<close>

theorem firmwareFileStems_false_stem_hides_pair:
  "firmwareFileStems [''a'', ''b.hex'', ''c.eeprom'', ''d.hex'', ''d.eeprom''] = Inr [''d'']
   \<and> firmwareFileStems [''false.hex'', ''d.hex'', ''d.eeprom''] = Inr []"
  by code_simp

subsection \<open>Facts about scheduling\<close>

lemma armedDelays_append: "armedDelays (xs @ ys) = armedDelays xs @ armedDelays ys"
  by (induction xs rule: armedDelays.induct) simp_all

lemma scheduleFirmwareUpdateCheck_effects:
  "effects (scheduleFirmwareUpdateCheck now delay w) =
     effects w @ [ConsoleLog (SchedulingCheck delay), ConfigSetNextCheck (now + delay)]
       @ (if accepts (store w) KeyNextCheck then [] else [ConsoleWarn UnableToSetNextCheck])
       @ [SetTimeout delay]"
  by (simp add: scheduleFirmwareUpdateCheck_def config_set_nextCheck_def emit_def Let_def)

lemma scheduleFirmwareUpdateCheck_store:
  "store (scheduleFirmwareUpdateCheck now delay w) =
     (if accepts (store w) KeyNextCheck then (store w)\<lparr>nextCheck := Some (now + delay)\<rparr>
      else store w)"
  by (simp add: scheduleFirmwareUpdateCheck_def config_set_nextCheck_def emit_def Let_def)

lemma scheduleFirmwareUpdateCheck_arms:
  "armedDelays (effects (scheduleFirmwareUpdateCheck now delay w)) = armedDelays (effects w) @ [delay]"
  by (simp add: scheduleFirmwareUpdateCheck_effects armedDelays_append)

lemma timerFires_error_rearms:
  "armedDelays (effects (snd (timerFires env ErrorEvent w))) = armedDelays (effects w) @ [10000]"
  by (simp add: timerFires_def errorResponseHandler_def checkForFirmwareUpdate_def
        scheduleFirmwareUpdateCheck_arms emit_def armedDelays_append)

lemma responseHandler_no_version:
  "responseHandler (env\<lparr>linkbotLabsVersion := None\<rparr>) (Some json) w = (None, w)"
  by (simp add: responseHandler_def)

lemma responseHandler_parse_error:
  "responseHandler env None w = (Some SyntaxError, w)"
  by (simp add: responseHandler_def)

lemma responseHandler_missing_key:
  "linkbotLabsVersion env = Some v \<Longrightarrow> linkbotlabs_firmware json = Some table
   \<Longrightarrow> map_of table (runningVersionKey v) = None
   \<Longrightarrow> responseHandler env (Some json) w = (Some TypeError, w)"
  by (simp add: responseHandler_def)

lemma config_set_latest_arms:
  "armedDelays (effects (snd (config_set_latestRemoteFirmwareVersion s w))) = armedDelays (effects w)"
  by (simp add: config_set_latestRemoteFirmwareVersion_def emit_def Let_def armedDelays_append)

lemma responseHandler_success_rearms:
  assumes "linkbotLabsVersion env = Some v"
    and "linkbotlabs_firmware json = Some table"
    and "map_of table (runningVersionKey v) = Some (name # others)"
    and "firmware_md5sums json = Some sums"
    and "lookupChecksums sums name = Some md5"
    and "localVersionList (listFirmwareFiles env) = Inr vs"
  shows "fst (responseHandler env (Some json) w) = None
         \<and> armedDelays (effects (snd (responseHandler env (Some json) w)))
             = armedDelays (effects w) @ [60000]"
  using assms
  by (simp add: responseHandler_def Let_def propertyName_def localVersionExists_def
        config_set_latestRemoteFirmwareVersion_def emit_def
        scheduleFirmwareUpdateCheck_arms armedDelays_append CHECK_INTERVAL_def
        split: prod.splits)

subsection \<open>scheduleFirmwareUpdateCheck: persist, then arm\<close>

text \<open>
  C8: for every delay, \<open>scheduleFirmwareUpdateCheck\<close> writes \<open>nextCheck = now + delay\<close> to
  the configuration store before it arms the timer, the store holds that value when it
  takes the write, and when the store refuses the write the only difference is one
  warning on the console: the timer is armed with the same delay all the same.
\<close>

theorem scheduleFirmwareUpdateCheck_persists_then_arms:
  "effects (scheduleFirmwareUpdateCheck now delay w) =
     effects w @ [ConsoleLog (SchedulingCheck delay), ConfigSetNextCheck (now + delay)]
       @ (if accepts (store w) KeyNextCheck then [] else [ConsoleWarn UnableToSetNextCheck])
       @ [SetTimeout delay]
   \<and> (accepts (store w) KeyNextCheck \<longrightarrow>
        nextCheck (store (scheduleFirmwareUpdateCheck now delay w)) = Some (now + delay))"
  by (simp add: scheduleFirmwareUpdateCheck_effects scheduleFirmwareUpdateCheck_store)

theorem scheduleFirmwareUpdateCheck_persists_then_arms_witness:
  "effects (scheduleFirmwareUpdateCheck 1000 250
      \<lparr>store = \<lparr>latestRemoteFirmwareVersion = None, nextCheck = None, accepts = (\<lambda>k. False)\<rparr>,
        effects = []\<rparr>)
     = [ConsoleLog (SchedulingCheck 250), ConfigSetNextCheck 1250,
        ConsoleWarn UnableToSetNextCheck, SetTimeout 250]
   \<and> nextCheck (store (scheduleFirmwareUpdateCheck 1000 250
      \<lparr>store = \<lparr>latestRemoteFirmwareVersion = None, nextCheck = None, accepts = (\<lambda>k. True)\<rparr>,
        effects = []\<rparr>)) = Some 1250"
  using scheduleFirmwareUpdateCheck_persists_then_arms [of 1000 250
          "\<lparr>store = \<lparr>latestRemoteFirmwareVersion = None, nextCheck = None, accepts = (\<lambda>k. False)\<rparr>,
            effects = []\<rparr>"]
        scheduleFirmwareUpdateCheck_persists_then_arms [of 1000 250
          "\<lparr>store = \<lparr>latestRemoteFirmwareVersion = None, nextCheck = None, accepts = (\<lambda>k. True)\<rparr>,
            effects = []\<rparr>"]
  by simp

subsection \<open>The initial delay\<close>

text \<open>
  C6: when the module is loaded, the first check is armed with the delay
  \<open>clamp(nextCheck - now, 0, 60000)\<close>, where a missing \<open>nextCheck\<close> is replaced by the
  clock: the delay is never negative and never above 60000, it is 0 for a \<open>nextCheck\<close>
  in the past and exactly 60000 for one more than 60000 ms ahead.
\<close>

theorem initialDelay_clamped:
  "initialDelay cfg nowIfAbsent now
     = clamp ((case nextCheck cfg of None \<Rightarrow> nowIfAbsent | Some t \<Rightarrow> t) - now) 0 60000
   \<and> 0 \<le> initialDelay cfg nowIfAbsent now \<and> initialDelay cfg nowIfAbsent now \<le> 60000
   \<and> (\<forall>t. nextCheck cfg = Some t \<and> t \<le> now \<longrightarrow> initialDelay cfg nowIfAbsent now = 0)
   \<and> (\<forall>t. nextCheck cfg = Some t \<and> now + 60000 \<le> t \<longrightarrow> initialDelay cfg nowIfAbsent now = 60000)
   \<and> (\<forall>t. nextCheck cfg = Some t \<and> now \<le> t \<and> t \<le> now + 60000
          \<longrightarrow> initialDelay cfg nowIfAbsent now = t - now)
   \<and> (nextCheck cfg = None \<and> nowIfAbsent \<le> now \<longrightarrow> initialDelay cfg nowIfAbsent now = 0)
   \<and> armedDelays (effects (moduleLoad nowIfAbsent now nowScheduling \<lparr>store = cfg, effects = []\<rparr>))
       = [initialDelay cfg nowIfAbsent now]"
  by (auto simp: initialDelay_def clamp_def CHECK_INTERVAL_def moduleLoad_def
        scheduleFirmwareUpdateCheck_arms split: option.splits)

theorem initialDelay_clamped_witness:
  "initialDelay \<lparr>latestRemoteFirmwareVersion = None, nextCheck = Some 95000, accepts = (\<lambda>k. True)\<rparr> 100000 100000 = 0
   \<and> initialDelay \<lparr>latestRemoteFirmwareVersion = None, nextCheck = Some 700000, accepts = (\<lambda>k. True)\<rparr> 100000 100000 = 60000
   \<and> initialDelay \<lparr>latestRemoteFirmwareVersion = None, nextCheck = Some 130000, accepts = (\<lambda>k. True)\<rparr> 100000 100000 = 30000
   \<and> initialDelay \<lparr>latestRemoteFirmwareVersion = None, nextCheck = None, accepts = (\<lambda>k. True)\<rparr> 100000 100000 = 0"
  using initialDelay_clamped [of "\<lparr>latestRemoteFirmwareVersion = None, nextCheck = Some 95000, accepts = (\<lambda>k. True)\<rparr>" 100000 100000 100000]
        initialDelay_clamped [of "\<lparr>latestRemoteFirmwareVersion = None, nextCheck = Some 700000, accepts = (\<lambda>k. True)\<rparr>" 100000 100000 100000]
        initialDelay_clamped [of "\<lparr>latestRemoteFirmwareVersion = None, nextCheck = Some 130000, accepts = (\<lambda>k. True)\<rparr>" 100000 100000 100000]
        initialDelay_clamped [of "\<lparr>latestRemoteFirmwareVersion = None, nextCheck = None, accepts = (\<lambda>k. True)\<rparr>" 100000 100000 100000]
  by simp

subsection \<open>A firing of the timer that arms no next check\<close>

text \<open>
  C2: every firing of the scheduled check is to arm the next one, after 60000 ms on
  success and after 10000 ms on every failure. The \<open>error\<close> event does so
  (\<open>timerFires_error_rearms\<close>) and so does a successful \<open>load\<close>
  (\<open>responseHandler_success_rearms\<close>). But a \<open>load\<close> event arms nothing when the bridge
  reports no running version, when the body does not parse, and when the document has no
  entry for the running version: the handler returns or raises before it reaches the
  scheduling call, and the only effect of the firing is the request itself.
\<close>

theorem timerFires_load_without_rearm:
  "timerFires
     \<lparr>linkbotLabsVersion = None, listFirmwareFiles = [''v4.4.6.eeprom'', ''v4.4.6.hex''],
       locationHost = ''localhost'', dateNow = 100000\<rparr>
     (LoadEvent (Some \<lparr>linkbotlabs_firmware = Some [(''1.0.0'', [''4.4.6''])],
                       firmware_md5sums =
                         Some [(''4.4.6'', \<lparr>md5_hex = Some ''aa'', md5_eeprom = Some ''bb''\<rparr>)]\<rparr>))
     \<lparr>store = \<lparr>latestRemoteFirmwareVersion = None, nextCheck = Some 100000, accepts = (\<lambda>k. True)\<rparr>, effects = []\<rparr>
   = (None, \<lparr>store = \<lparr>latestRemoteFirmwareVersion = None, nextCheck = Some 100000, accepts = (\<lambda>k. True)\<rparr>, effects = [XhrGet ''/firmware/metadata.json'']\<rparr>)
   \<and> timerFires
     \<lparr>linkbotLabsVersion = Some \<lparr>major = 2, minor = 0, patch = 0\<rparr>,
       listFirmwareFiles = [''v4.4.6.eeprom'', ''v4.4.6.hex''],
       locationHost = ''localhost'', dateNow = 100000\<rparr>
     (LoadEvent None)
     \<lparr>store = \<lparr>latestRemoteFirmwareVersion = None, nextCheck = Some 100000, accepts = (\<lambda>k. True)\<rparr>, effects = []\<rparr>
   = (Some SyntaxError, \<lparr>store = \<lparr>latestRemoteFirmwareVersion = None, nextCheck = Some 100000, accepts = (\<lambda>k. True)\<rparr>, effects = [XhrGet ''/firmware/metadata.json'']\<rparr>)
   \<and> timerFires
     \<lparr>linkbotLabsVersion = Some \<lparr>major = 2, minor = 0, patch = 0\<rparr>,
       listFirmwareFiles = [''v4.4.6.eeprom'', ''v4.4.6.hex''],
       locationHost = ''localhost'', dateNow = 100000\<rparr>
     (LoadEvent (Some \<lparr>linkbotlabs_firmware = Some [(''1.0.0'', [''4.4.6''])],
                       firmware_md5sums =
                         Some [(''4.4.6'', \<lparr>md5_hex = Some ''aa'', md5_eeprom = Some ''bb''\<rparr>)]\<rparr>))
     \<lparr>store = \<lparr>latestRemoteFirmwareVersion = None, nextCheck = Some 100000, accepts = (\<lambda>k. True)\<rparr>, effects = []\<rparr>
   = (Some TypeError, \<lparr>store = \<lparr>latestRemoteFirmwareVersion = None, nextCheck = Some 100000, accepts = (\<lambda>k. True)\<rparr>, effects = [XhrGet ''/firmware/metadata.json'']\<rparr>)
   \<and> armedDelays [XhrGet ''/firmware/metadata.json''] = []"
proof -
  have key: "runningVersionKey \<lparr>major = 2, minor = 0, patch = 0\<rparr> = ''2.0.0''"
    by code_simp
  show ?thesis
    by (simp add: timerFires_def checkForFirmwareUpdate_def emit_def responseHandler_def key)
qed

end
